theory Spec2Isabelle
  imports Main "HOL-Library.Sublist"
begin

section \<open>kubectl-foreach: a shallow embedding of main.go\<close>

text \<open>
  Go strings are byte sequences, so a Go \<^verbatim>\<open>string\<close> is a \<^typ>\<open>string\<close> (a list of
  8-bit characters) and \<^verbatim>\<open>len\<close> is \<^const>\<open>length\<close>. Go's \<^verbatim>\<open>int\<close> is \<^typ>\<open>int\<close>:
  the only arithmetic on it in main.go is on lengths and indices of values held in
  memory, which stay far inside 64 bits. An \<^verbatim>\<open>error\<close> is its message, and
  \<^verbatim>\<open>nil\<close> is \<^const>\<open>None\<close>. A run-time panic is a value of type \<open>panic\<close>.
\<close>

datatype panic = IndexOutOfRange | NegativeRepeatCount

subsection \<open>Package strings of the Go standard library\<close>

text \<open>
  \<^verbatim>\<open>strings.Index(s, substr)\<close>: the offset of the first instance of \<open>substr\<close> in
  \<open>s\<close>; \<^const>\<open>None\<close> stands for the result \<open>-1\<close>.
\<close>

fun strings_Index :: "string \<Rightarrow> string \<Rightarrow> nat option" where
  "strings_Index [] substr = (if substr = [] then Some 0 else None)"
| "strings_Index (c # cs) substr =
     (if prefix substr (c # cs) then Some 0 else map_option Suc (strings_Index cs substr))"

text \<open>
  \<^verbatim>\<open>strings.Replace(s, old, new, -1)\<close>: every non-overlapping instance of \<open>old\<close>,
  found from left to right with \<^verbatim>\<open>Index\<close>, is replaced by \<open>new\<close>. The model covers a
  non-empty \<open>old\<close>, which is all that \<open>replaceArgs\<close> passes (its guard
  \<^verbatim>\<open>repl == ""\<close> returns before the call); Go's insertion between UTF-8 sequences for
  an empty \<open>old\<close> is not modelled, and the equation returns \<open>s\<close> there.
\<close>

function strings_Replace :: "string \<Rightarrow> string \<Rightarrow> string \<Rightarrow> string" where
  "strings_Replace s old new =
     (if old = [] then s
      else case strings_Index s old of
             None \<Rightarrow> s
           | Some j \<Rightarrow> take j s @ new @ strings_Replace (drop (j + length old) s) old new)"
  by pat_completeness auto
termination
proof (relation "measure (\<lambda>(s, old, new). length s)")
  show "wf (measure (\<lambda>(s, old, new). length s))" by simp
next
  fix s old new :: string and j :: nat
  assume "old \<noteq> []" and "strings_Index s old = Some j"
  then have "s \<noteq> []" by (cases s) auto
  with \<open>old \<noteq> []\<close>
  show "((drop (j + length old) s, old, new), (s, old, new)) \<in> measure (\<lambda>(s, old, new). length s)"
    by simp
qed

text \<open>
  \<^verbatim>\<open>strings.Split(s, sep)\<close> for a non-empty \<open>sep\<close>: the pieces of \<open>s\<close> between the
  instances of \<open>sep\<close>. \<open>kubeContexts\<close> calls it with the constant separator
  \<^verbatim>\<open>"\n"\<close>; Go's explosion into UTF-8 sequences for an empty \<open>sep\<close> is not modelled.
\<close>

function strings_Split :: "string \<Rightarrow> string \<Rightarrow> string list" where
  "strings_Split s sep =
     (if sep = [] then [s]
      else case strings_Index s sep of
             None \<Rightarrow> [s]
           | Some j \<Rightarrow> take j s # strings_Split (drop (j + length sep) s) sep)"
  by pat_completeness auto
termination
proof (relation "measure (\<lambda>(s, sep). length s)")
  show "wf (measure (\<lambda>(s, sep). length s))" by simp
next
  fix s sep :: string and j :: nat
  assume "sep \<noteq> []" and "strings_Index s sep = Some j"
  then have "s \<noteq> []" by (cases s) auto
  with \<open>sep \<noteq> []\<close>
  show "((drop (j + length sep) s, sep), (s, sep)) \<in> measure (\<lambda>(s, sep). length s)"
    by simp
qed

text \<open>
  \<^verbatim>\<open>strings.Repeat(s, count)\<close> panics on a negative count. (Its other panic, on a
  result longer than an \<^verbatim>\<open>int\<close> can count, cannot arise for the one-byte string that
  \<open>leftPad\<close> repeats at most as often as a name held in memory is long.)
\<close>

definition strings_Repeat :: "string \<Rightarrow> int \<Rightarrow> panic + string" where
  "strings_Repeat s count =
     (if count < 0 then Inl NegativeRepeatCount else Inr (concat (replicate (nat count) s)))"

text \<open>
  \<^verbatim>\<open>strings.TrimSpace\<close> removes leading and trailing white space as Unicode defines it
  (\<^verbatim>\<open>unicode.IsSpace\<close>). On bytes: the UTF-8 encodings of U+0009 to U+000D, U+0020,
  U+0085, U+00A0, U+1680, U+2000 to U+200A, U+2028, U+2029, U+202F, U+205F and U+3000.
\<close>

definition whiteSpace :: "string list" where
  "whiteSpace =
     [[CHR 0x09], [CHR 0x0A], [CHR 0x0B], [CHR 0x0C], [CHR 0x0D], [CHR 0x20],
      [CHR 0xC2, CHR 0x85], [CHR 0xC2, CHR 0xA0],
      [CHR 0xE1, CHR 0x9A, CHR 0x80],
      [CHR 0xE2, CHR 0x80, CHR 0x80], [CHR 0xE2, CHR 0x80, CHR 0x81],
      [CHR 0xE2, CHR 0x80, CHR 0x82], [CHR 0xE2, CHR 0x80, CHR 0x83],
      [CHR 0xE2, CHR 0x80, CHR 0x84], [CHR 0xE2, CHR 0x80, CHR 0x85],
      [CHR 0xE2, CHR 0x80, CHR 0x86], [CHR 0xE2, CHR 0x80, CHR 0x87],
      [CHR 0xE2, CHR 0x80, CHR 0x88], [CHR 0xE2, CHR 0x80, CHR 0x89],
      [CHR 0xE2, CHR 0x80, CHR 0x8A],
      [CHR 0xE2, CHR 0x80, CHR 0xA8], [CHR 0xE2, CHR 0x80, CHR 0xA9],
      [CHR 0xE2, CHR 0x80, CHR 0xAF],
      [CHR 0xE2, CHR 0x81, CHR 0x9F],
      [CHR 0xE3, CHR 0x80, CHR 0x80]]"

text \<open>The white-space encoding that \<open>s\<close> starts with, or ends with, if there is one.\<close>

definition leadingSpace :: "string \<Rightarrow> string option" where
  "leadingSpace s = find (\<lambda>w. prefix w s) whiteSpace"

definition trailingSpace :: "string \<Rightarrow> string option" where
  "trailingSpace s = find (\<lambda>w. suffix w s) whiteSpace"

function trimLeftSpace :: "string \<Rightarrow> string" where
  "trimLeftSpace s =
     (case leadingSpace s of
        None \<Rightarrow> s
      | Some w \<Rightarrow> trimLeftSpace (drop (length w) s))"
  by pat_completeness auto
termination
proof (relation "measure length")
  show "wf (measure length)" by simp
next
  fix s w :: string
  assume "leadingSpace s = Some w"
  then have "prefix w s" and "w \<in> set whiteSpace"
    by (auto simp: leadingSpace_def find_Some_iff)
  from \<open>w \<in> set whiteSpace\<close> have "w \<noteq> []" by (auto simp: whiteSpace_def)
  with \<open>prefix w s\<close> have "s \<noteq> []" by auto
  with \<open>w \<noteq> []\<close> show "(drop (length w) s, s) \<in> measure length" by simp
qed

function trimRightSpace :: "string \<Rightarrow> string" where
  "trimRightSpace s =
     (case trailingSpace s of
        None \<Rightarrow> s
      | Some w \<Rightarrow> trimRightSpace (take (length s - length w) s))"
  by pat_completeness auto
termination
proof (relation "measure length")
  show "wf (measure length)" by simp
next
  fix s w :: string
  assume "trailingSpace s = Some w"
  then have "suffix w s" and "w \<in> set whiteSpace"
    by (auto simp: trailingSpace_def find_Some_iff)
  from \<open>w \<in> set whiteSpace\<close> have "w \<noteq> []" by (auto simp: whiteSpace_def)
  with \<open>suffix w s\<close> have "s \<noteq> []" by auto
  with \<open>w \<noteq> []\<close> show "(take (length s - length w) s, s) \<in> measure length" by simp
qed

definition strings_TrimSpace :: "string \<Rightarrow> string" where
  "strings_TrimSpace s = trimRightSpace (trimLeftSpace s)"

subsection \<open>trimSuffix\<close>

text \<open>
  The loop of \<open>trimSuffix\<close> walks both slices from their last elements; \<open>i\<close> and
  \<open>j\<close> are the two indices, and an index outside its slice is Go's panic. The loop
  yields whether every element of \<open>suf\<close> was found equal.
\<close>

function trimSuffix_loop :: "string list \<Rightarrow> string list \<Rightarrow> int \<Rightarrow> int \<Rightarrow> panic + bool" where
  "trimSuffix_loop a suf i j =
     (if 0 \<le> j then
        (if i < 0 \<or> int (length a) \<le> i \<or> int (length suf) \<le> j then Inl IndexOutOfRange
         else if a ! nat i \<noteq> suf ! nat j then Inr False
         else trimSuffix_loop a suf (i - 1) (j - 1))
      else Inr True)"
  by pat_completeness auto
termination
  by (relation "measure (\<lambda>(a, suf, i, j). nat (j + 1))") auto

definition trimSuffix :: "string list \<Rightarrow> string list \<Rightarrow> panic + string list" where
  "trimSuffix a suf =
     (if length a < length suf then Inr a
      else case trimSuffix_loop a suf (int (length a) - 1) (int (length suf) - 1) of
             Inl p \<Rightarrow> Inl p
           | Inr matched \<Rightarrow>
               if matched then Inr (take (length a - length suf) a) else Inr a)"

subsection \<open>replaceArgs\<close>

text \<open>
  \<open>replaceArgs args repl\<close> is the closure that main hands to \<open>runAll\<close>; applied to a
  context name it builds kubectl's arguments. \<^verbatim>\<open>make([]string, len(args))\<close> is a list of
  empty strings, filled index by index.
\<close>

definition replaceArgs :: "string list \<Rightarrow> string \<Rightarrow> string \<Rightarrow> string list" where
  "replaceArgs args repl ctx =
     (if repl = [] then (''--context='' @ ctx) # args
      else fold (\<lambda>i out. out[i := strings_Replace (args ! i) repl ctx])
             [0..<length args] (replicate (length args) []))"

subsection \<open>kubeContexts\<close>

text \<open>
  The argument is what running \<^verbatim>\<open>kubectl config get-contexts -o=name\<close> gave: the error
  of \<^verbatim>\<open>cmd.Run\<close>, or the bytes captured from its standard output.
\<close>

definition kubeContexts :: "string + string \<Rightarrow> string + string list" where
  "kubeContexts cmdRun =
     (case cmdRun of
        Inl err \<Rightarrow> Inl (''failed to get contexts: '' @ err)
      | Inr b \<Rightarrow> Inr (strings_Split (strings_TrimSpace b) ''\<newline>''))"

subsection \<open>maxLen and runAll\<close>

fun maxLen_loop :: "int \<Rightarrow> string list \<Rightarrow> int" where
  "maxLen_loop mx [] = mx"
| "maxLen_loop mx (v # s) =
     maxLen_loop (if mx < int (length v) then int (length v) else mx) s"

definition maxLen :: "string list \<Rightarrow> int" where
  "maxLen s = maxLen_loop 0 s"

text \<open>
  The palette: each entry of \<^verbatim>\<open>colors\<close> is a gchalk builder, a chain of foreground and
  background colours, whose \<^verbatim>\<open>Sprintf\<close> takes a printf format and its operands and
  renders the formatted string in that style; \<open>runAll\<close> calls it with the context's
  name as the format and no operand. The rendering belongs to the gchalk library and is
  a parameter \<open>Sprintf\<close> of the model: \<open>Sprintf st format\<close> is what the builder
  \<open>st\<close> returns for \<open>format\<close> without operands.
\<close>

datatype color =
    Black | Red | Green | Yellow | Blue | Magenta | Cyan | White | Gray
  | BrightRed | BrightGreen | BrightYellow | BrightBlue | BrightMagenta | BrightCyan
  | BrightWhite

datatype attr = Fg color | Bg color

type_synonym style = "attr list"

definition colors :: "style list" where
  "colors =
     [[Fg Red], [Fg Blue], [Fg Green], [Fg Yellow, Bg Black], [Fg Gray], [Fg Magenta],
      [Fg Cyan], [Fg BrightRed],
      [Fg BrightBlue], [Fg BrightGreen], [Fg BrightMagenta], [Fg BrightYellow, Bg Black],
      [Fg BrightCyan],
      [Bg Red, Fg White], [Bg Blue, Fg White], [Bg Cyan, Fg Black], [Bg Green, Fg Black],
      [Bg Magenta, Fg BrightWhite], [Bg Yellow, Fg Black], [Bg Gray, Fg White],
      [Bg BrightRed, Fg White], [Bg BrightBlue, Fg White], [Bg BrightCyan, Fg Black],
      [Bg BrightGreen, Fg Black], [Bg BrightMagenta, Fg Black], [Bg BrightYellow, Fg Black],
      [Bg Red, Fg Yellow], [Bg Yellow, Fg Red], [Bg Blue, Fg Yellow], [Bg Yellow, Fg Blue],
      [Bg Black, Fg BrightWhite], [Bg BrightWhite, Fg Black]]"

text \<open>
  The two shared sinks are main's \<^verbatim>\<open>syncOut\<close> and \<^verbatim>\<open>syncErr\<close>. A
  \<^verbatim>\<open>prefixingWriter\<close> is built from a prefix and a sink; a task is what one goroutine of
  the group runs: kubectl's arguments and the two writers. A pool is the group's limit
  and its tasks in the order they are handed to \<^verbatim>\<open>wg.Go\<close>; a task whose construction
  panics is the panic.
\<close>

datatype sink = SyncOut | SyncErr

record prefixingWriter =
  pw_prefix :: string
  pw_w :: sink

record task =
  t_args :: "string list"
  t_wo :: prefixingWriter
  t_we :: prefixingWriter

record pool =
  limit :: int
  tasks :: "(panic + task) list"

definition leftPad :: "int \<Rightarrow> string \<Rightarrow> int \<Rightarrow> panic + string" where
  "leftPad maxLenV s origLen =
     (case strings_Repeat '' '' (maxLenV - origLen) of
        Inl p \<Rightarrow> Inl p
      | Inr pad \<Rightarrow> Inr (pad @ s))"

definition runAll ::
  "(style \<Rightarrow> string \<Rightarrow> string) \<Rightarrow> int \<Rightarrow> string list \<Rightarrow> (string \<Rightarrow> string list) \<Rightarrow> sink \<Rightarrow> sink \<Rightarrow> pool"
where
  "runAll Sprintf workers kubeCtxs argMaker stdout stderr =
     (let n = (if 0 < workers then workers else int (length kubeCtxs));
          maxLenV = maxLen kubeCtxs
      in \<lparr>limit = n,
          tasks = map (\<lambda>(i, kctx).
                    let colFn = Sprintf (colors ! (i mod length colors))
                    in case leftPad maxLenV (colFn kctx) (int (length kctx)) of
                         Inl p \<Rightarrow> Inl p
                       | Inr padded \<Rightarrow>
                           let pfx = padded @ '' | ''
                           in Inr \<lparr>t_args = argMaker kctx,
                                   t_wo = \<lparr>pw_prefix = pfx, pw_w = stdout\<rparr>,
                                   t_we = \<lparr>pw_prefix = pfx, pw_w = stderr\<rparr>\<rparr>)
                  (enumerate 0 kubeCtxs)\<rparr>)"

subsection \<open>prompt\<close>

text \<open>
  \<open>prompt\<close> starts a goroutine that scans one line from the input and sends its
  verdict on the channel \<^verbatim>\<open>scanDone\<close>, and then selects between that channel and
  \<^verbatim>\<open>ctx.Done()\<close>. What the scanner does while \<open>prompt\<close> waits is the input of the model:
  \<^verbatim>\<open>s.Scan()\<close> returned true and \<^verbatim>\<open>s.Text()\<close> is the line, or it returned false, or it
  has not returned because no full line has arrived. \<open>ctxDone\<close> says whether the
  context has been cancelled by then, and \<open>selectCtx\<close> is the choice Go's
  \<^verbatim>\<open>select\<close> makes when both of its cases are ready.
\<close>

datatype scan = ScanTrue string | ScanFalse | ScanPending

record promptRace =
  scanned :: scan
  ctxDone :: bool
  selectCtx :: bool

text \<open>The values the goroutine sends on \<^verbatim>\<open>scanDone\<close>, in order.\<close>

definition scanDone :: "scan \<Rightarrow> string option list" where
  "scanDone sc =
     (case sc of
        ScanTrue v \<Rightarrow>
          (if v = ''y'' \<or> v = ''Y'' \<or> v = [] then [None] else [])
          @ [Some ''user refused execution'']
      | ScanFalse \<Rightarrow> [Some ''user refused execution'']
      | ScanPending \<Rightarrow> [])"

text \<open>
  The result of \<open>prompt\<close>: \<open>Some res\<close> when it returns the error \<open>res\<close>
  (\<^const>\<open>None\<close> for \<^verbatim>\<open>nil\<close>), and \<^const>\<open>None\<close> when neither case of the
  \<^verbatim>\<open>select\<close> ever becomes ready and \<open>prompt\<close> does not return.
\<close>

definition prompt :: "promptRace \<Rightarrow> string option option" where
  "prompt r =
     (case scanDone (scanned r) of
        [] \<Rightarrow> if ctxDone r then Some (Some ''prompt canceled'') else None
      | res # _ \<Rightarrow>
          if ctxDone r \<and> selectCtx r then Some (Some ''prompt canceled'') else Some res)"

subsection \<open>main\<close>

text \<open>
  A run of main is the sequence of its effects: writes to the standard error stream,
  the read of the confirmation, the dispatch of the pool, and the exit status (or a
  panic). What main gets from outside is a record: the command line \<^verbatim>\<open>os.Args[1:]\<close>,
  the values of the flags \<^verbatim>\<open>-c\<close>, \<^verbatim>\<open>-q\<close> and \<^verbatim>\<open>-I\<close> as the flag package has
  stored them (\<open>workers_c\<close>, \<open>quiet_q\<close> and \<open>repl_I\<close>), the outcome of the kubectl
  call, the environment variable, the race at the prompt, and what \<^verbatim>\<open>wg.Wait()\<close>
  returned. The goroutine that reports the exit signal is not part of the sequence.
\<close>

datatype event =
    WriteStderr string
  | ReadStdin
  | Blocked
  | RunAll pool
  | Exit int
  | Panicked panic

text \<open>
  An error of \<^verbatim>\<open>fl.Parse\<close>: \<^verbatim>\<open>flag.ErrHelp\<close>, or another one with its message.
\<close>

datatype parseError = ErrHelp | ErrOther string

record invocation =
  osArgs :: "string list"
  workers_c :: int
  quiet_q :: bool
  repl_I :: string
  getContexts :: "string + string"
  disablePrompts :: string
  stdinRace :: promptRace
  waitErr :: "string option"

text \<open>
  What main calls and the sources do not hold: the styles \<^verbatim>\<open>chalk.Gray\<close> and
  \<^verbatim>\<open>chalk.Red\<close> and the renderer of the palette (gchalk); \<^verbatim>\<open>fl.Parse\<close> followed by
  \<^verbatim>\<open>fl.Args()\<close>, as the error or the positional arguments (package flag);
  \<^verbatim>\<open>separateArgs\<close>, as the error or the two lists it returns; and the two functions of
  the filter file, whatever the type \<open>'f\<close> of a filter is.
\<close>

record 'f externals =
  gray :: "string \<Rightarrow> string"
  red :: "string \<Rightarrow> string"
  Sprintf :: "style \<Rightarrow> string \<Rightarrow> string"
  flParse :: "string list \<Rightarrow> parseError + string list"
  separateArgs :: "string list \<Rightarrow> string + string list \<times> string list"
  parseFilter :: "string \<Rightarrow> string + 'f"
  matchContexts :: "string list \<Rightarrow> 'f list \<Rightarrow> string list"

definition printErrAndExit :: "(string \<Rightarrow> string) \<Rightarrow> string \<Rightarrow> event list" where
  "printErrAndExit redS msg = [WriteStderr (redS ''error: '' @ msg @ ''\<newline>''), Exit 1]"

definition usage :: string where
  "usage =
     ''Usage:\<newline>''
     @ ''    kubectl allctx [OPTIONS] [PATTERN]... -- [KUBECTL_ARGS...]\<newline>''
     @ ''\<newline>''
     @ ''Patterns can be used to match contexts in kubeconfig:\<newline>''
     @ ''      (empty): matches all contexts\<newline>''
     @ ''      PATTERN: matches context with exact name\<newline>''
     @ ''    /PATTERN/: matches context with regular expression\<newline>''
     @ ''     ^PATTERN: removes results from matched contexts\<newline>''
     @ ''    \<newline>''
     @ ''Options:\<newline>''
     @ ''    -c=NUM       Limit parallel executions\<newline>''
     @ ''    -h/--help    Print help\<newline>''
     @ ''    -I=VAL       Replace VAL occuring in KUBECTL_ARGS with context name\<newline>''"

definition printUsage :: "event list" where
  "printUsage = [WriteStderr usage, Exit 0]"

text \<open>
  The flag package reports a failure of \<^verbatim>\<open>fl.Parse\<close> itself, before \<^verbatim>\<open>Parse\<close>
  returns: for a request for help it calls \<^verbatim>\<open>fl.Usage\<close>, and for any other error it
  writes the message and a newline to the error stream and then calls \<^verbatim>\<open>fl.Usage\<close>.
  main has set \<^verbatim>\<open>fl.Usage\<close> to \<open>printUsage\<close>, which ends the process with status 0.
  So a failing \<^verbatim>\<open>Parse\<close> never returns to main, and the branches of main that print
  its error are not reached.
\<close>

definition flagFailure :: "parseError \<Rightarrow> event list" where
  "flagFailure e =
     (case e of
        ErrHelp \<Rightarrow> printUsage
      | ErrOther msg \<Rightarrow> WriteStderr (msg @ ''\<newline>'') # printUsage)"

text \<open>The loop over \<^verbatim>\<open>fl.Args()\<close>: the first pattern that fails to parse ends the run.\<close>

fun parseFilters :: "(string \<Rightarrow> string + 'f) \<Rightarrow> string list \<Rightarrow> 'f list \<Rightarrow> string + 'f list" where
  "parseFilters pf [] filters = Inr filters"
| "parseFilters pf (arg # rest) filters =
     (case pf arg of
        Inl err \<Rightarrow> Inl err
      | Inr f \<Rightarrow> parseFilters pf rest (filters @ [f]))"

text \<open>The lines that list the matched contexts, one write each.\<close>

definition listContexts :: "(string \<Rightarrow> string) \<Rightarrow> string list \<Rightarrow> event list" where
  "listContexts grayS ctxMatches =
     map (\<lambda>c. WriteStderr (grayS (''  - '' @ c @ ''\<newline>''))) ctxMatches"

text \<open>
  The confirmation block of main: its effects, and whether main goes on to
  \<open>runAll\<close> after it.
\<close>

definition confirmation :: "'f externals \<Rightarrow> invocation \<Rightarrow> string list \<Rightarrow> event list \<times> bool" where
  "confirmation ext iv ctxMatches =
     (if disablePrompts iv = [] then
        (if quiet_q iv then (listContexts (gray ext) ctxMatches, True)
         else
           let asked =
                 [WriteStderr ''Will run command in context(s):\<newline>'']
                 @ listContexts (gray ext) ctxMatches
                 @ [WriteStderr ''Continue? [Y/n]: '', ReadStdin]
           in case prompt (stdinRace iv) of
                None \<Rightarrow> (asked @ [Blocked], False)
              | Some None \<Rightarrow> (asked, True)
              | Some (Some err) \<Rightarrow> (asked @ printErrAndExit (red ext) err, False))
      else ([], True))"

text \<open>main from the test of \<^verbatim>\<open>len(ctxMatches)\<close> on.\<close>

definition mainMatched ::
  "'f externals \<Rightarrow> invocation \<Rightarrow> string list \<Rightarrow> string list \<Rightarrow> event list"
where
  "mainMatched ext iv kubectlArgs ctxMatches =
     (if length ctxMatches = 0 then
        printErrAndExit (red ext) ''query matched no contexts from kubeconfig''
      else
        case confirmation ext iv ctxMatches of
          (evs, False) \<Rightarrow> evs
        | (evs, True) \<Rightarrow>
            evs
            @ [RunAll (runAll (Sprintf ext) (workers_c iv) ctxMatches
                         (replaceArgs kubectlArgs (repl_I iv)) SyncOut SyncErr)]
            @ (case waitErr iv of
                 Some err \<Rightarrow> printErrAndExit (red ext) err
               | None \<Rightarrow> [Exit 0]))"

definition main :: "'f externals \<Rightarrow> invocation \<Rightarrow> event list" where
  "main ext iv =
     (case flParse ext (osArgs iv) of
        Inl e \<Rightarrow> flagFailure e
      | Inr _ \<Rightarrow>
     (case separateArgs ext (osArgs iv) of
        Inl err \<Rightarrow>
          printErrAndExit (red ext) (''failed to parse command-line arguments: '' @ err)
      | Inr (_, kubectlArgs) \<Rightarrow>
     (if workers_c iv < 0 then printErrAndExit (red ext) ''-c < 0''
      else
     (case kubeContexts (getContexts iv) of
        Inl err \<Rightarrow> printErrAndExit (red ext) err
      | Inr ctxs \<Rightarrow>
     (case trimSuffix (osArgs iv) (''--'' # kubectlArgs) of
        Inl p \<Rightarrow> [Panicked p]
      | Inr toolArgs \<Rightarrow>
     (case flParse ext toolArgs of
        Inl e \<Rightarrow> flagFailure e
      | Inr flArgs \<Rightarrow>
     (case parseFilters (parseFilter ext) flArgs [] of
        Inl err \<Rightarrow> printErrAndExit (red ext) err
      | Inr filters \<Rightarrow>
          mainMatched ext iv kubectlArgs (matchContexts ext ctxs filters))))))))"

subsection \<open>The filter engine\<close>

text \<open>
  Modelled from the spec: the type \<^verbatim>\<open>filter\<close> and the functions \<^verbatim>\<open>parseFilter\<close> and
  \<^verbatim>\<open>matchContexts\<close> that main calls are in a file of the repository that is not among
  the sources. The definitions below follow section 4.2 of the specification
  (\<open>matchTargets\<close>): with no filter the raw list is the result; otherwise the selected
  set starts empty when some filter is non-negating and as the whole raw list when all
  are negating, the filters are applied from left to right, and the result keeps the
  raw targets that are selected. How a regular expression matches a name is the
  parameter \<open>rx\<close>.
\<close>

datatype kind = Exact | Regex

record filter =
  f_kind :: kind
  f_negate :: bool
  f_pattern :: string

text \<open>
  Modelled from the spec: whether a filter's pattern, negation aside, matches a name
  (this is part of the missing filter file). An exact pattern matches the equal name;
  a regular expression matches as \<open>rx\<close> says.
\<close>

definition matches :: "(string \<Rightarrow> string \<Rightarrow> bool) \<Rightarrow> filter \<Rightarrow> string \<Rightarrow> bool" where
  "matches rx f name =
     (case f_kind f of
        Exact \<Rightarrow> name = f_pattern f
      | Regex \<Rightarrow> rx (f_pattern f) name)"

text \<open>
  Modelled from the spec: one step of the missing \<^verbatim>\<open>matchContexts\<close>. A non-negating
  filter adds to the selected set every raw target it matches, in raw order and never
  twice; a negating filter removes from it every raw target it matches.
\<close>

definition applyFilter ::
  "(string \<Rightarrow> string \<Rightarrow> bool) \<Rightarrow> string list \<Rightarrow> string list \<Rightarrow> filter \<Rightarrow> string list"
where
  "applyFilter rx raw selected f =
     (if f_negate f then
        filter (\<lambda>t. \<not> (t \<in> set raw \<and> matches rx f t)) selected
      else
        fold (\<lambda>t sel. if matches rx f t \<and> t \<notin> set sel then sel @ [t] else sel) raw selected)"

text \<open>
  Modelled from the spec: the missing \<^verbatim>\<open>matchContexts\<close>, as \<open>matchTargets\<close> of
  section 4.2.
\<close>

definition matchTargets ::
  "(string \<Rightarrow> string \<Rightarrow> bool) \<Rightarrow> string list \<Rightarrow> filter list \<Rightarrow> string list"
where
  "matchTargets rx raw filters =
     (if filters = [] then raw
      else
        let start = (if list_ex (\<lambda>f. \<not> f_negate f) filters then [] else raw);
            selected = foldl (applyFilter rx raw) start filters
        in filter (\<lambda>t. t \<in> set selected) raw)"

subsection \<open>Replacing every occurrence, as the specification words it\<close>

text \<open>
  The specification of \<^verbatim>\<open>-I VAL\<close> says that every occurrence of \<open>VAL\<close> in an
  argument is replaced with the target name. As a relation between an argument and its
  replacement, reading the argument from the left: an argument in which \<open>old\<close> does
  not occur stays as it is; otherwise the argument is \<open>p @ old @ q\<close>, where this
  occurrence of \<open>old\<close> is the first one (none begins inside \<open>p\<close>), it becomes
  \<open>new\<close>, and the rest \<open>q\<close> is treated the same way.
\<close>

inductive replacedAll :: "string \<Rightarrow> string \<Rightarrow> string \<Rightarrow> string \<Rightarrow> bool"
  for old new :: string where
  none: "\<not> sublist old s \<Longrightarrow> replacedAll old new s s"
| first: "\<not> sublist old (p @ butlast old) \<Longrightarrow> replacedAll old new q q'
          \<Longrightarrow> replacedAll old new (p @ old @ q) (p @ new @ q')"

subsection \<open>An example run\<close>

text \<open>
  Concrete externals and a concrete invocation, for evaluating main: styles that leave
  the text as it is; a command line without flags, so that parsing it gives what stands
  before \<^verbatim>\<open>--\<close> as the patterns and what stands behind it as kubectl's arguments;
  filters that are exact names. The run is \<^verbatim>\<open>kubectl allctx -- get pods\<close> on a
  kubeconfig with the contexts \<open>a\<close> and \<open>b\<close>, the variable unset, and a user who
  answers \<open>y\<close>.
\<close>

definition exampleExt :: "string externals" where
  "exampleExt =
     \<lparr>gray = (\<lambda>s. s), red = (\<lambda>s. s), Sprintf = (\<lambda>st s. s),
      flParse = (\<lambda>args. Inr (case args of [] \<Rightarrow> []
                                | a # rest \<Rightarrow> if a = ''--'' then rest else args)),
      separateArgs = (\<lambda>args. if ''--'' \<in> set args
                         then Inr (takeWhile (\<lambda>a. a \<noteq> ''--'') args,
                                   tl (dropWhile (\<lambda>a. a \<noteq> ''--'') args))
                         else Inl ''no separator''),
      parseFilter = (\<lambda>arg. Inr arg),
      matchContexts = (\<lambda>ctxs fs. if fs = [] then ctxs else filter (\<lambda>c. c \<in> set fs) ctxs)\<rparr>"

definition exampleRun :: invocation where
  "exampleRun =
     \<lparr>osArgs = [''--'', ''get'', ''pods''], workers_c = 0,
      quiet_q = False, repl_I = [], getContexts = Inr ''a\<newline>b\<newline>'',
      disablePrompts = [],
      stdinRace = \<lparr>scanned = ScanTrue ''y'', ctxDone = False, selectCtx = False\<rparr>,
      waitErr = None\<rparr>"

section \<open>Properties\<close>

subsection \<open>trimSuffix\<close>

declare trimSuffix_loop.simps [simp del]

lemma trimSuffix_loop_compares:
  "n \<le> length s \<Longrightarrow> n + d \<le> length a \<Longrightarrow>
   trimSuffix_loop a s (int (n + d) - 1) (int n - 1) = Inr (\<forall>k<n. a ! (k + d) = s ! k)"
proof (induction n)
  case 0
  show ?case by (simp add: trimSuffix_loop.simps)
next
  case (Suc n)
  have step: "trimSuffix_loop a s (int (Suc n + d) - 1) (int (Suc n) - 1) =
      (if a ! (n + d) \<noteq> s ! n then Inr False
       else trimSuffix_loop a s (int (n + d) - 1) (int n - 1))"
    using Suc.prems by (subst trimSuffix_loop.simps) (simp add: nat_add_distrib)
  have ih: "trimSuffix_loop a s (int (n + d) - 1) (int n - 1) = Inr (\<forall>k<n. a ! (k + d) = s ! k)"
    using Suc by simp
  show ?case
    unfolding step ih by (auto simp: less_Suc_eq)
qed

lemma trimSuffix_loop_suffix:
  assumes "length s \<le> length a"
  shows "trimSuffix_loop a s (int (length a) - 1) (int (length s) - 1) = Inr (suffix s a)"
proof -
  define d where "d = length a - length s"
  have len: "length s + d = length a" using assms by (simp add: d_def)
  have "trimSuffix_loop a s (int (length s + d) - 1) (int (length s) - 1)
          = Inr (\<forall>k<length s. a ! (k + d) = s ! k)"
    by (rule trimSuffix_loop_compares) (simp_all add: len)
  moreover have "(\<forall>k<length s. a ! (k + d) = s ! k) \<longleftrightarrow> drop d a = s"
    using len by (auto simp: list_eq_iff_nth_eq add.commute)
  moreover have "drop d a = s \<longleftrightarrow> suffix s a"
    using len by (metis add_diff_cancel_left' append_take_drop_id length_drop suffix_def
        suffix_drop append_eq_append_conv add.commute)
  ultimately show ?thesis by (simp add: len)
qed

lemma trimSuffix_eq:
  "trimSuffix a s = Inr (if suffix s a then take (length a - length s) a else a)"
proof (cases "length a < length s")
  case True
  then have "\<not> suffix s a" using suffix_length_le by fastforce
  with True show ?thesis by (simp add: trimSuffix_def)
next
  case False
  then show ?thesis by (simp add: trimSuffix_def trimSuffix_loop_suffix)
qed

text \<open>
  C9. Taking a suffix off is the inverse of appending it: \<open>trimSuffix (a @ s) s\<close>
  returns \<open>a\<close>. And whenever \<open>s\<close> is not a suffix of \<open>a\<close>, element by element,
  which includes every \<open>s\<close> longer than \<open>a\<close>, \<open>trimSuffix a s\<close> returns \<open>a\<close>
  unchanged. Neither call panics.
\<close>

theorem trimSuffix_round_trip:
  "trimSuffix (a @ s) s = Inr a \<and> (\<not> suffix s a \<longrightarrow> trimSuffix a s = Inr a)"
proof -
  have "suffix s (a @ s)" by (rule suffixI) simp
  then show ?thesis by (simp add: trimSuffix_eq)
qed

theorem trimSuffix_round_trip_witness:
  "trimSuffix ([''-q'', ''prod''] @ [''--'', ''get'', ''pods'']) [''--'', ''get'', ''pods'']
      = Inr [''-q'', ''prod'']
   \<and> \<not> suffix [''--'', ''get'', ''pods''] [''pods'']
   \<and> trimSuffix [''pods''] [''--'', ''get'', ''pods''] = Inr [''pods'']
   \<and> \<not> suffix [''--'', ''y''] [''a'', ''--'', ''x'']
   \<and> trimSuffix [''a'', ''--'', ''x''] [''--'', ''y''] = Inr [''a'', ''--'', ''x'']"
  using trimSuffix_round_trip [of "[''-q'', ''prod'']" "[''--'', ''get'', ''pods'']"]
    trimSuffix_round_trip [of "[''pods'']" "[''--'', ''get'', ''pods'']"]
    trimSuffix_round_trip [of "[''a'', ''--'', ''x'']" "[''--'', ''y'']"]
  by (simp add: suffix_Cons)


subsection \<open>Index, Replace and replaceArgs\<close>

declare strings_Replace.simps [simp del] strings_Split.simps [simp del]
  trimLeftSpace.simps [simp del] trimRightSpace.simps [simp del]

lemma strings_Index_None: "strings_Index s sub = None \<longleftrightarrow> \<not> sublist sub s"
  by (induction s) (auto simp: sublist_Cons_right)

lemma strings_Index_Some:
  "strings_Index s sub = Some j \<Longrightarrow>
     j \<le> length s \<and> prefix sub (drop j s) \<and> (\<forall>i<j. \<not> prefix sub (drop i s))"
proof (induction s arbitrary: j)
  case Nil
  then show ?case by (auto split: if_splits)
next
  case (Cons c cs)
  show ?case
  proof (cases "prefix sub (c # cs)")
    case True
    with Cons.prems show ?thesis by simp
  next
    case False
    with Cons.prems obtain k where k: "strings_Index cs sub = Some k" "j = Suc k"
      by auto
    from Cons.IH [OF k(1)] False k(2) show ?thesis
      by (auto simp: less_Suc_eq_0_disj)
  qed
qed

lemma first_instance:
  assumes "strings_Index s old = Some j" "old \<noteq> []"
  shows "s = take j s @ old @ drop (j + length old) s"
    and "\<not> sublist old (take j s @ butlast old)"
proof -
  from strings_Index_Some [OF assms(1)]
  have j: "j \<le> length s" and pre: "prefix old (drop j s)"
    and least: "\<forall>i<j. \<not> prefix old (drop i s)" by auto
  from pre obtain r where r: "drop j s = old @ r" by (auto simp: prefix_def)
  then have "drop (j + length old) s = r"
    by (metis add.commute append_eq_conv_conj drop_drop)
  with r show s: "s = take j s @ old @ drop (j + length old) s"
    by (metis append_take_drop_id)
  show "\<not> sublist old (take j s @ butlast old)"
  proof
    assume "sublist old (take j s @ butlast old)"
    then obtain ps ss where eq: "take j s @ butlast old = ps @ old @ ss"
      by (auto simp: sublist_def)
    have "length (take j s @ butlast old) = j + length old - 1"
      using j assms(2) by (cases old) (simp_all add: min_absorb2)
    with eq have "length ps + length old + length ss = j + length old - 1"
      by (metis length_append add.assoc)
    with assms(2) have "length ps < j" by (cases old) auto
    have "s = take j s @ butlast old @ [last old] @ drop (j + length old) s"
      using s assms(2) by (metis append_butlast_last_id append_assoc append_Cons append_Nil)
    then have "s = ps @ old @ (ss @ [last old] @ drop (j + length old) s)"
      using eq by (metis append_assoc)
    then have "drop (length ps) s = old @ (ss @ [last old] @ drop (j + length old) s)"
      by (metis append_eq_conv_conj)
    then have "prefix old (drop (length ps) s)" by simp
    with least \<open>length ps < j\<close> show False by blast
  qed
qed

lemma strings_Replace_replacedAll:
  "old \<noteq> [] \<Longrightarrow> replacedAll old new s (strings_Replace s old new)"
proof (induction s old new rule: strings_Replace.induct)
  case (1 s old new)
  show ?case
  proof (cases "strings_Index s old")
    case None
    then have "\<not> sublist old s" by (simp add: strings_Index_None)
    then have "replacedAll old new s s" by (rule replacedAll.none)
    with None "1.prems" show ?thesis by (subst strings_Replace.simps) simp
  next
    case (Some j)
    let ?q = "drop (j + length old) s"
    have ih: "replacedAll old new ?q (strings_Replace ?q old new)"
      using "1.IH" [OF "1.prems" Some] "1.prems" by simp
    from first_instance [OF Some "1.prems"]
    have s: "s = take j s @ old @ ?q" and nf: "\<not> sublist old (take j s @ butlast old)" by auto
    have "replacedAll old new (take j s @ old @ ?q) (take j s @ new @ strings_Replace ?q old new)"
      using nf ih by (rule replacedAll.first)
    with s have "replacedAll old new s (take j s @ new @ strings_Replace ?q old new)" by simp
    moreover have "strings_Replace s old new = take j s @ new @ strings_Replace ?q old new"
      using Some "1.prems" by (subst strings_Replace.simps) simp
    ultimately show ?thesis by simp
  qed
qed

text \<open>
  The relation \<open>replacedAll\<close> determines the replacement: the first occurrence of
  \<open>old\<close> in an argument is at one place only.
\<close>

lemma overlap_prefix:
  assumes "us \<noteq> []" and "old @ q = us @ old @ q2"
  shows "prefix old (us @ butlast old)"
proof (cases "old = []")
  case True
  then show ?thesis by simp
next
  case False
  then have "old = butlast old @ [last old]" by simp
  then have "us @ old @ q2 = (us @ butlast old) @ ([last old] @ q2)"
    by (metis append_assoc)
  with assms(2) have "prefix (us @ butlast old) (old @ q)"
    by (metis prefixI)
  moreover have "prefix old (old @ q)" by simp
  moreover have "length old \<le> length (us @ butlast old)"
    using assms(1) False by (cases us) auto
  ultimately show ?thesis by (metis prefix_length_prefix)
qed

lemma first_instance_unique:
  assumes eq: "p @ old @ q = p2 @ old @ q2"
    and np: "\<not> sublist old (p @ butlast old)"
    and np2: "\<not> sublist old (p2 @ butlast old)"
  shows "p = p2 \<and> q = q2"
proof -
  have "p = p2"
  proof (rule ccontr)
    assume ne: "p \<noteq> p2"
    from iffD1 [OF append_eq_append_conv2 eq]
    obtain us where "p = p2 @ us \<and> us @ old @ q = old @ q2
        \<or> p @ us = p2 \<and> old @ q = us @ old @ q2" ..
    then consider "p2 = p @ us" "old @ q = us @ old @ q2"
      | "p = p2 @ us" "old @ q2 = us @ old @ q"
      by metis
    then show False
    proof cases
      case 1
      with ne have "us \<noteq> []" by auto
      from overlap_prefix [OF this 1(2)] have "sublist old (p @ (us @ butlast old))"
        by (auto simp: prefix_def)
      with 1(1) np2 show False by simp
    next
      case 2
      with ne have "us \<noteq> []" by auto
      from overlap_prefix [OF this 2(2)] have "sublist old (p2 @ (us @ butlast old))"
        by (auto simp: prefix_def)
      with 2(1) np show False by simp
    qed
  qed
  with eq show ?thesis by simp
qed

lemma replacedAll_unique:
  "replacedAll old new s r \<Longrightarrow> replacedAll old new s r' \<Longrightarrow> r = r'"
proof (induction arbitrary: r' rule: replacedAll.induct)
  case (none s)
  from none.prems none.hyps show ?case
    by (cases rule: replacedAll.cases) auto
next
  case (first p q q' r')
  from first.prems show ?case
  proof (cases rule: replacedAll.cases)
    case none
    then have "\<not> sublist old (p @ old @ q)" by simp
    then show ?thesis by simp
  next
    case (first p2 q2 q2')
    from first_instance_unique [OF first(1) first.hyps(1) first(3)]
    have "p = p2" "q = q2" by auto
    with first first.IH show ?thesis by auto
  qed
qed

lemma strings_Replace_absent:
  "\<not> sublist old s \<Longrightarrow> strings_Replace s old new = s"
  by (subst strings_Replace.simps) (simp add: strings_Index_None [symmetric])



lemma fold_fill:
  "k \<le> length args \<Longrightarrow>
   fold (\<lambda>i out. out[i := f (args ! i)]) [0..<k] (replicate (length args) e)
     = map f (take k args) @ replicate (length args - k) e"
proof (induction k)
  case 0
  show ?case by simp
next
  case (Suc k)
  then have k: "k < length args" by simp
  have rep: "replicate (length args - k) e = e # replicate (length args - Suc k) e"
    using k by (metis Suc_diff_Suc replicate_Suc)
  have "fold (\<lambda>i out. out[i := f (args ! i)]) [0..<Suc k] (replicate (length args) e)
          = (map f (take k args) @ replicate (length args - k) e)[k := f (args ! k)]"
    using Suc by simp
  also have "\<dots> = map f (take k args) @ (f (args ! k) # replicate (length args - Suc k) e)"
    using k by (simp add: list_update_append rep min_absorb2)
  also have "\<dots> = map f (take (Suc k) args) @ replicate (length args - Suc k) e"
    using k by (simp add: take_Suc_conv_app_nth)
  finally show ?case .
qed

lemma replaceArgs_map:
  "repl \<noteq> [] \<Longrightarrow> replaceArgs args repl ctx = map (\<lambda>a. strings_Replace a repl ctx) args"
  using fold_fill [of "length args" args "\<lambda>a. strings_Replace a repl ctx" "[]"]
  by (simp add: replaceArgs_def)

text \<open>
  C3. With a non-empty value of \<^verbatim>\<open>-I\<close>, the arguments built for a target are the
  wrapped arguments, each with every occurrence of the value replaced by the target's
  name: the list has the wrapped arguments' length and order, each element is Go's
  \<^verbatim>\<open>strings.Replace\<close> of the argument, and that is the replacement of every occurrence
  in the sense of \<open>replacedAll\<close>. With an empty value, the arguments are the wrapped
  arguments behind a leading \<^verbatim>\<open>--context=<target>\<close>. This holds for every list of
  wrapped arguments, the empty one included.
\<close>

theorem replaceArgs_builds:
  "(repl \<noteq> [] \<longrightarrow>
      replaceArgs args repl ctx = map (\<lambda>a. strings_Replace a repl ctx) args
      \<and> list_all2 (replacedAll repl ctx) args (replaceArgs args repl ctx))
   \<and> (repl = [] \<longrightarrow> replaceArgs args repl ctx = (''--context='' @ ctx) # args)"
  by (simp add: replaceArgs_map list_all2_conv_all_nth strings_Replace_replacedAll)
    (simp add: replaceArgs_def)

theorem replaceArgs_builds_witness:
  "''{}'' \<noteq> []
   \<and> replaceArgs [''get'', ''pods'', ''-n'', ''{}-ns-{}''] ''{}'' ''prod''
       = [''get'', ''pods'', ''-n'', ''prod-ns-prod'']
   \<and> replaceArgs [''get'', ''pods''] [] ''prod'' = [''--context=prod'', ''get'', ''pods'']"
proof -
  have ev: "map (\<lambda>a. strings_Replace a ''{}'' ''prod'') [''get'', ''pods'', ''-n'', ''{}-ns-{}'']
      = [''get'', ''pods'', ''-n'', ''prod-ns-prod'']"
    by code_simp
  from replaceArgs_builds [of "''{}''" "[''get'', ''pods'', ''-n'', ''{}-ns-{}'']" "''prod''"]
    replaceArgs_builds [of "[]" "[''get'', ''pods'']" "''prod''"] ev
  show ?thesis by simp
qed

text \<open>
  C10. When the value of \<^verbatim>\<open>-I\<close> is non-empty and occurs in none of the wrapped
  arguments, the arguments built for a target are the wrapped arguments themselves, with
  no context selector added, so they are the same for any two targets.
\<close>

theorem replaceArgs_absent:
  "repl \<noteq> [] \<Longrightarrow> \<forall>a \<in> set args. \<not> sublist repl a \<Longrightarrow>
   replaceArgs args repl ctx = args \<and> replaceArgs args repl ctx = replaceArgs args repl ctx'"
  by (simp add: replaceArgs_map strings_Replace_absent map_idI)

theorem replaceArgs_absent_witness:
  "''{}'' \<noteq> [] \<and> \<not> sublist ''{}'' ''get'' \<and> \<not> sublist ''{}'' ''pods''
   \<and> replaceArgs [''get'', ''pods''] ''{}'' ''prod'' = [''get'', ''pods'']
   \<and> replaceArgs [''get'', ''pods''] ''{}'' ''prod'' = replaceArgs [''get'', ''pods''] ''{}'' ''dev''"
proof -
  have h: "\<forall>a \<in> set [''get'', ''pods'']. \<not> sublist ''{}'' a"
    by (simp add: sublist_Cons_right)
  have n: "''{}'' \<noteq> []" by simp
  from replaceArgs_absent [OF n h, of "''prod''" "''dev''"]
  have "replaceArgs [''get'', ''pods''] ''{}'' ''prod'' = [''get'', ''pods'']"
    and "replaceArgs [''get'', ''pods''] ''{}'' ''prod'' = replaceArgs [''get'', ''pods''] ''{}'' ''dev''"
    by blast+
  with h n show ?thesis by simp
qed

subsection \<open>kubeContexts\<close>

lemma leadingSpace_append:
  "w \<in> set whiteSpace \<Longrightarrow> leadingSpace (w @ rest) = Some w"
  unfolding whiteSpace_def leadingSpace_def
  by (simp only: set_simps insert_iff empty_iff, elim disjE FalseE; simp)

lemma trimLeftSpace_Nil: "trimLeftSpace [] = []"
  by (subst trimLeftSpace.simps) (simp add: leadingSpace_def whiteSpace_def)

lemma trimRightSpace_Nil: "trimRightSpace [] = []"
  by (subst trimRightSpace.simps) (simp add: trailingSpace_def whiteSpace_def)

lemma trimLeftSpace_concat:
  "set ws \<subseteq> set whiteSpace \<Longrightarrow> trimLeftSpace (concat ws) = []"
proof (induction ws)
  case Nil
  show ?case by (simp add: trimLeftSpace_Nil)
next
  case (Cons w ws)
  then have "leadingSpace (w @ concat ws) = Some w" by (simp add: leadingSpace_append)
  then have "trimLeftSpace (w @ concat ws) = trimLeftSpace (concat ws)"
    by (subst trimLeftSpace.simps) simp
  with Cons show ?case by simp
qed

lemma strings_Split_not_Nil: "strings_Split s sep \<noteq> []"
  by (subst strings_Split.simps) (simp split: option.split)

text \<open>
  C8. When kubectl succeeds and its captured output is empty or only white space (any
  sequence of white-space characters), \<open>kubeContexts\<close> returns the one-element list
  holding the empty string; and no successful call returns the empty list.
\<close>

theorem kubeContexts_blank:
  "(set ws \<subseteq> set whiteSpace \<longrightarrow> kubeContexts (Inr (concat ws)) = Inr [[]])
   \<and> (\<forall>ctxs. kubeContexts cmdRun = Inr ctxs \<longrightarrow> ctxs \<noteq> [])"
proof -
  have "strings_Split [] ''\<newline>'' = [[]]" by (subst strings_Split.simps) simp
  then have "set ws \<subseteq> set whiteSpace \<longrightarrow> kubeContexts (Inr (concat ws)) = Inr [[]]"
    by (simp add: kubeContexts_def strings_TrimSpace_def trimLeftSpace_concat trimRightSpace_Nil)
  moreover have "\<forall>ctxs. kubeContexts cmdRun = Inr ctxs \<longrightarrow> ctxs \<noteq> []"
    by (cases cmdRun) (auto simp: kubeContexts_def strings_Split_not_Nil)
  ultimately show ?thesis by simp
qed



theorem kubeContexts_blank_witness:
  "set ['' '', ''\<newline>'', [CHR 0xC2, CHR 0xA0], [CHR 0x09]] \<subseteq> set whiteSpace
   \<and> kubeContexts (Inr (concat ['' '', ''\<newline>'', [CHR 0xC2, CHR 0xA0], [CHR 0x09]])) = Inr [[]]
   \<and> kubeContexts (Inr []) = Inr [[]]
   \<and> kubeContexts (Inr ''a\<newline>b\<newline>'') = Inr [''a'', ''b'']
   \<and> [''a'', ''b''] \<noteq> []"
proof -
  have h: "set ['' '', ''\<newline>'', [CHR 0xC2, CHR 0xA0], [CHR 0x09]] \<subseteq> set whiteSpace"
    by (simp add: whiteSpace_def)
  have e: "kubeContexts (Inr ''a\<newline>b\<newline>'') = Inr [''a'', ''b'']"
    by code_simp
  from kubeContexts_blank [of "['' '', ''\<newline>'', [CHR 0xC2, CHR 0xA0], [CHR 0x09]]"]
    kubeContexts_blank [of "[]"]
    kubeContexts_blank [of _ "Inr ''a\<newline>b\<newline>''"] h e
  show ?thesis by simp
qed


subsection \<open>runAll\<close>

text \<open>
  C4. The limit that \<open>runAll\<close> sets on the group is the value of \<^verbatim>\<open>-c\<close> when that is
  greater than zero, and the number of matched contexts otherwise (zero is the flag's
  default), which is also the number of tasks: one slot for each.
\<close>

theorem runAll_limit:
  "limit (runAll S workers kubeCtxs argMaker out err)
     = (if 0 < workers then workers else int (length kubeCtxs))
   \<and> length (tasks (runAll S workers kubeCtxs argMaker out err)) = length kubeCtxs"
  by (simp add: runAll_def Let_def)






subsection \<open>prompt\<close>

text \<open>
  C2. When the \<^verbatim>\<open>select\<close> of \<open>prompt\<close> receives from the scanner (the context is not
  cancelled, or Go picks the scanner's channel), a line that is empty, \<open>y\<close> or \<open>Y\<close>
  makes \<open>prompt\<close> return \<^verbatim>\<open>nil\<close>, and any other line makes it return the error
  "user refused execution". When the context is cancelled while no full line has
  arrived, \<open>prompt\<close> returns the error "prompt canceled": it returns, it does not
  block.
\<close>

theorem prompt_verdict:
  "(\<not> (ctxDone r \<and> selectCtx r) \<longrightarrow> scanned r = ScanTrue v \<longrightarrow>
      prompt r = Some (if v = [] \<or> v = ''y'' \<or> v = ''Y'' then None
                       else Some ''user refused execution''))
   \<and> (ctxDone r \<longrightarrow> scanned r = ScanPending \<longrightarrow> prompt r = Some (Some ''prompt canceled''))"
  by (auto simp: prompt_def scanDone_def)

theorem prompt_verdict_witness:
  "prompt \<lparr>scanned = ScanTrue [], ctxDone = False, selectCtx = False\<rparr> = Some None
   \<and> prompt \<lparr>scanned = ScanTrue ''y'', ctxDone = False, selectCtx = False\<rparr> = Some None
   \<and> prompt \<lparr>scanned = ScanTrue ''Y'', ctxDone = True, selectCtx = False\<rparr> = Some None
   \<and> prompt \<lparr>scanned = ScanTrue ''n'', ctxDone = False, selectCtx = False\<rparr>
       = Some (Some ''user refused execution'')
   \<and> prompt \<lparr>scanned = ScanTrue ''yes'', ctxDone = False, selectCtx = False\<rparr>
       = Some (Some ''user refused execution'')
   \<and> prompt \<lparr>scanned = ScanPending, ctxDone = True, selectCtx = False\<rparr>
       = Some (Some ''prompt canceled'')"
  using
    prompt_verdict [of "\<lparr>scanned = ScanTrue [], ctxDone = False, selectCtx = False\<rparr>" "[]"]
    prompt_verdict [of "\<lparr>scanned = ScanTrue ''y'', ctxDone = False, selectCtx = False\<rparr>" "''y''"]
    prompt_verdict [of "\<lparr>scanned = ScanTrue ''Y'', ctxDone = True, selectCtx = False\<rparr>" "''Y''"]
    prompt_verdict [of "\<lparr>scanned = ScanTrue ''n'', ctxDone = False, selectCtx = False\<rparr>" "''n''"]
    prompt_verdict [of "\<lparr>scanned = ScanTrue ''yes'', ctxDone = False, selectCtx = False\<rparr>" "''yes''"]
    prompt_verdict [of "\<lparr>scanned = ScanPending, ctxDone = True, selectCtx = False\<rparr>"]
  by simp

subsection \<open>main\<close>

lemma example_contexts: "kubeContexts (getContexts exampleRun) = Inr [''a'', ''b'']"
  unfolding exampleRun_def by code_simp

text \<open>
  C6. In every run that gets as far as filtering (the flags parse, kubectl lists the
  contexts, the patterns parse) and in which the filters match no context, main writes
  the error "query matched no contexts from kubeconfig" once to the error stream and
  exits with status 1. That is the whole run: nothing is read from the input, no prompt
  is written, and no pool is dispatched.
\<close>

theorem main_no_match:
  assumes "flParse ext (osArgs iv) = Inr allArgs"
    and "separateArgs ext (osArgs iv) = Inr (ownArgs, kubectlArgs)"
    and "0 \<le> workers_c iv"
    and "kubeContexts (getContexts iv) = Inr ctxs"
    and "trimSuffix (osArgs iv) (''--'' # kubectlArgs) = Inr toolArgs"
    and "flParse ext toolArgs = Inr flArgs"
    and "parseFilters (parseFilter ext) flArgs [] = Inr filters"
    and "matchContexts ext ctxs filters = []"
  shows "main ext iv =
           [WriteStderr (red ext ''error: '' @ ''query matched no contexts from kubeconfig''
                         @ ''\<newline>''),
            Exit 1]"
  using assms by (simp add: main_def mainMatched_def printErrAndExit_def)

theorem main_no_match_witness:
  "flParse exampleExt (osArgs (exampleRun\<lparr>osArgs := [''c'', ''--'', ''get'', ''pods'']\<rparr>))
     = Inr [''c'', ''--'', ''get'', ''pods'']
   \<and> separateArgs exampleExt (osArgs (exampleRun\<lparr>osArgs := [''c'', ''--'', ''get'', ''pods'']\<rparr>))
     = Inr ([''c''], [''get'', ''pods''])
   \<and> 0 \<le> workers_c (exampleRun\<lparr>osArgs := [''c'', ''--'', ''get'', ''pods'']\<rparr>)
   \<and> kubeContexts (getContexts (exampleRun\<lparr>osArgs := [''c'', ''--'', ''get'', ''pods'']\<rparr>))
     = Inr [''a'', ''b'']
   \<and> trimSuffix (osArgs (exampleRun\<lparr>osArgs := [''c'', ''--'', ''get'', ''pods'']\<rparr>))
       (''--'' # [''get'', ''pods'']) = Inr [''c'']
   \<and> flParse exampleExt [''c''] = Inr [''c'']
   \<and> parseFilters (parseFilter exampleExt) [''c''] [] = Inr [''c'']
   \<and> matchContexts exampleExt [''a'', ''b''] [''c''] = []
   \<and> main exampleExt (exampleRun\<lparr>osArgs := [''c'', ''--'', ''get'', ''pods'']\<rparr>)
       = [WriteStderr ''error: query matched no contexts from kubeconfig\<newline>'', Exit 1]"
proof -
  let ?iv = "exampleRun\<lparr>osArgs := [''c'', ''--'', ''get'', ''pods'']\<rparr>"
  have 1: "flParse exampleExt (osArgs ?iv) = Inr [''c'', ''--'', ''get'', ''pods'']"
    by (simp add: exampleExt_def)
  have 2: "separateArgs exampleExt (osArgs ?iv) = Inr ([''c''], [''get'', ''pods''])"
    by (simp add: exampleExt_def)
  have 3: "0 \<le> workers_c ?iv" by (simp add: exampleRun_def)
  have 4: "kubeContexts (getContexts ?iv) = Inr [''a'', ''b'']"
    using example_contexts by simp
  have 5: "trimSuffix (osArgs ?iv) (''--'' # [''get'', ''pods'']) = Inr [''c'']"
    by (simp add: trimSuffix_eq suffix_Cons)
  have 6: "flParse exampleExt [''c''] = Inr [''c'']"
    by (simp add: exampleExt_def)
  have 7: "parseFilters (parseFilter exampleExt) [''c''] [] = Inr [''c'']"
    by (simp add: exampleExt_def)
  have 8: "matchContexts exampleExt [''a'', ''b''] [''c''] = []"
    by (simp add: exampleExt_def)
  from main_no_match [OF 1 2 3 4 5 6 7 8] have
    "main exampleExt ?iv
      = [WriteStderr ''error: query matched no contexts from kubeconfig\<newline>'', Exit 1]"
    by (simp add: exampleExt_def)
  with 1 2 3 4 5 6 7 8 show ?thesis by blast
qed

text \<open>
  C1, as stated, fails. With the variable set to \<open>1\<close> the example run writes nothing
  to the error stream before it dispatches the pool, while the same run with \<^verbatim>\<open>-q\<close>
  and the variable unset lists the two contexts first.
\<close>

theorem env_is_not_quiet_counterexample:
  "main exampleExt (exampleRun\<lparr>disablePrompts := ''1''\<rparr>)
     = [RunAll (runAll (\<lambda>st s. s) 0 [''a'', ''b''] (replaceArgs [''get'', ''pods''] [])
                  SyncOut SyncErr),
        Exit 0]
   \<and> main exampleExt (exampleRun\<lparr>quiet_q := True\<rparr>)
     = [WriteStderr ''  - a\<newline>'', WriteStderr ''  - b\<newline>'',
        RunAll (runAll (\<lambda>st s. s) 0 [''a'', ''b''] (replaceArgs [''get'', ''pods''] [])
                  SyncOut SyncErr),
        Exit 0]"
proof -
  have args: "trimSuffix [''--'', ''get'', ''pods''] [''--'', ''get'', ''pods''] = Inr []"
    by (simp add: trimSuffix_eq)
  show ?thesis
    using example_contexts args
    by (simp add: main_def mainMatched_def confirmation_def listContexts_def
        exampleExt_def exampleRun_def)
qed

text \<open>
  C1, amended. When the variable is set to a non-empty value, the confirmation block
  does nothing: it reads no input and writes nothing, the list of matched contexts
  included, and main goes straight on to dispatch the pool. The list is written only
  when the variable is unset: with \<^verbatim>\<open>-q\<close> the block writes the list and goes on
  without reading input; without \<^verbatim>\<open>-q\<close> it writes the heading, the list and the
  question, reads the answer, and goes on only when \<open>prompt\<close> returns \<^verbatim>\<open>nil\<close>
  (it ends the run with the error otherwise, or waits when \<open>prompt\<close> does not
  return).
\<close>

theorem env_disables_gate_silently:
  "(disablePrompts iv \<noteq> [] \<longrightarrow>
      confirmation ext iv ctxMatches = ([], True)
      \<and> (ctxMatches \<noteq> [] \<longrightarrow>
           mainMatched ext iv kubectlArgs ctxMatches =
             RunAll (runAll (Sprintf ext) (workers_c iv) ctxMatches
                       (replaceArgs kubectlArgs (repl_I iv)) SyncOut SyncErr)
             # (case waitErr iv of Some err \<Rightarrow> printErrAndExit (red ext) err
                                | None \<Rightarrow> [Exit 0])))
   \<and> (disablePrompts iv = [] \<longrightarrow> quiet_q iv \<longrightarrow>
        confirmation ext iv ctxMatches = (listContexts (gray ext) ctxMatches, True))
   \<and> (disablePrompts iv = [] \<longrightarrow> \<not> quiet_q iv \<longrightarrow>
        confirmation ext iv ctxMatches =
          (case prompt (stdinRace iv) of
             None \<Rightarrow>
               (WriteStderr ''Will run command in context(s):\<newline>''
                # listContexts (gray ext) ctxMatches
                @ [WriteStderr ''Continue? [Y/n]: '', ReadStdin, Blocked], False)
           | Some None \<Rightarrow>
               (WriteStderr ''Will run command in context(s):\<newline>''
                # listContexts (gray ext) ctxMatches
                @ [WriteStderr ''Continue? [Y/n]: '', ReadStdin], True)
           | Some (Some err) \<Rightarrow>
               (WriteStderr ''Will run command in context(s):\<newline>''
                # listContexts (gray ext) ctxMatches
                @ [WriteStderr ''Continue? [Y/n]: '', ReadStdin,
                   WriteStderr (red ext ''error: '' @ err @ ''\<newline>''), Exit 1], False)))"
  by (simp add: confirmation_def mainMatched_def printErrAndExit_def Let_def
      split: option.split)

theorem env_disables_gate_silently_witness:
  "disablePrompts (exampleRun\<lparr>disablePrompts := ''1''\<rparr>) \<noteq> []
   \<and> confirmation exampleExt (exampleRun\<lparr>disablePrompts := ''1''\<rparr>) [''a'', ''b''] = ([], True)
   \<and> mainMatched exampleExt (exampleRun\<lparr>disablePrompts := ''1''\<rparr>) [''get'', ''pods''] [''a'', ''b'']
       = [RunAll (runAll (\<lambda>st s. s) 0 [''a'', ''b''] (replaceArgs [''get'', ''pods''] [])
                    SyncOut SyncErr),
          Exit 0]
   \<and> disablePrompts (exampleRun\<lparr>quiet_q := True\<rparr>) = []
   \<and> quiet_q (exampleRun\<lparr>quiet_q := True\<rparr>)
   \<and> confirmation exampleExt (exampleRun\<lparr>quiet_q := True\<rparr>) [''a'', ''b'']
       = ([WriteStderr ''  - a\<newline>'', WriteStderr ''  - b\<newline>''], True)
   \<and> disablePrompts exampleRun = []
   \<and> \<not> quiet_q exampleRun
   \<and> confirmation exampleExt exampleRun [''a'', ''b'']
       = ([WriteStderr ''Will run command in context(s):\<newline>'',
           WriteStderr ''  - a\<newline>'', WriteStderr ''  - b\<newline>'',
           WriteStderr ''Continue? [Y/n]: '', ReadStdin], True)
   \<and> confirmation exampleExt
         (exampleRun\<lparr>stdinRace := \<lparr>scanned = ScanTrue ''n'', ctxDone = False,
                                    selectCtx = False\<rparr>\<rparr>) [''a'', ''b'']
       = ([WriteStderr ''Will run command in context(s):\<newline>'',
           WriteStderr ''  - a\<newline>'', WriteStderr ''  - b\<newline>'',
           WriteStderr ''Continue? [Y/n]: '', ReadStdin,
           WriteStderr ''error: user refused execution\<newline>'', Exit 1], False)"
proof -
  have y: "prompt (stdinRace exampleRun) = Some None"
    by (simp add: exampleRun_def prompt_def scanDone_def)
  have n: "prompt \<lparr>scanned = ScanTrue ''n'', ctxDone = False, selectCtx = False\<rparr>
             = Some (Some ''user refused execution'')"
    by (simp add: prompt_def scanDone_def)
  from
    env_disables_gate_silently [of "exampleRun\<lparr>disablePrompts := ''1''\<rparr>" exampleExt
      "[''a'', ''b'']" "[''get'', ''pods'']"]
    env_disables_gate_silently [of "exampleRun\<lparr>quiet_q := True\<rparr>" exampleExt
      "[''a'', ''b'']" "[''get'', ''pods'']"]
    env_disables_gate_silently [of exampleRun exampleExt "[''a'', ''b'']" "[''get'', ''pods'']"]
    env_disables_gate_silently [of
      "exampleRun\<lparr>stdinRace := \<lparr>scanned = ScanTrue ''n'', ctxDone = False,
                                  selectCtx = False\<rparr>\<rparr>"
      exampleExt "[''a'', ''b'']" "[''get'', ''pods'']"]
    y n
  show ?thesis
    by (simp add: exampleRun_def exampleExt_def listContexts_def)
qed

subsection \<open>The filter engine\<close>

text \<open>
  The examples of section 8 of the specification, on the model of the filter engine.
\<close>

lemma matchTargets_examples:
  "matchTargets rx [''a'', ''b'', ''c''] [] = [''a'', ''b'', ''c'']"
  "matchTargets rx [''a'', ''b'', ''c''] [\<lparr>f_kind = Exact, f_negate = False, f_pattern = ''b''\<rparr>]
     = [''b'']"
  "matchTargets rx [''a'', ''b'', ''c'']
     [\<lparr>f_kind = Exact, f_negate = False, f_pattern = ''b''\<rparr>,
      \<lparr>f_kind = Exact, f_negate = True, f_pattern = ''b''\<rparr>] = []"
  "matchTargets rx [''a'', ''b'', ''c''] [\<lparr>f_kind = Exact, f_negate = True, f_pattern = ''a''\<rparr>]
     = [''b'', ''c'']"
  by (simp_all add: matchTargets_def applyFilter_def matches_def)

text \<open>
  C7, as stated, fails on a raw list that holds a name twice: with no filter the raw
  list is the result, duplicates included.
\<close>

theorem matchTargets_duplicates_counterexample:
  "matchTargets (\<lambda>p n. False) [''a'', ''a''] [] = [''a'', ''a'']
   \<and> \<not> distinct (matchTargets (\<lambda>p n. False) [''a'', ''a''] [])"
  by (simp add: matchTargets_def)

text \<open>
  C7, amended. For every raw list and every list of filters, the Match Set is a
  subsequence of the raw list, in its order, and holds no name that the raw list does
  not hold; and it holds no name twice whenever the raw list holds none twice.
\<close>

theorem matchTargets_subseq:
  "subseq (matchTargets rx raw filters) raw
   \<and> set (matchTargets rx raw filters) \<subseteq> set raw
   \<and> (distinct raw \<longrightarrow> distinct (matchTargets rx raw filters))"
  by (auto simp: matchTargets_def Let_def)

theorem matchTargets_subseq_witness:
  "distinct [''a'', ''b'', ''c'']
   \<and> matchTargets (\<lambda>p n. False) [''a'', ''b'', ''c'']
        [\<lparr>f_kind = Exact, f_negate = True, f_pattern = ''a''\<rparr>] = [''b'', ''c'']
   \<and> subseq [''b'', ''c''] [''a'', ''b'', ''c'']
   \<and> distinct [''b'', ''c'']"
proof -
  have ev: "matchTargets (\<lambda>p n. False) [''a'', ''b'', ''c'']
        [\<lparr>f_kind = Exact, f_negate = True, f_pattern = ''a''\<rparr>] = [''b'', ''c'']"
    by (simp add: matchTargets_def applyFilter_def matches_def)
  from matchTargets_subseq [of "\<lambda>p n. False" "[''a'', ''b'', ''c'']"
      "[\<lparr>f_kind = Exact, f_negate = True, f_pattern = ''a''\<rparr>]"] ev
  show ?thesis by simp
qed

end
